theory Spec2Isabelle
  imports Complex_Main
begin

section \<open>JavaScript numbers\<close>

text \<open>
  A JavaScript \<^verbatim>\<open>number\<close> is a finite value, one of the two infinities, or NaN.
  Finite arithmetic is taken exact (rounding to the nearest double is not modelled, and the
  two zeros are one value), but a finite result whose magnitude reaches the overflow
  threshold of binary64 becomes an infinity, and the special values propagate as
  ECMAScript prescribes.
\<close>

datatype jsnum = Fin real | PInf | NInf | NaN

definition ovf :: real where
  "ovf = 2 ^ 1024 - 2 ^ 970"

definition fin :: "real \<Rightarrow> jsnum" where
  "fin r = (if ovf \<le> r then PInf else if r \<le> - ovf then NInf else Fin r)"

fun js_neg :: "jsnum \<Rightarrow> jsnum" where
  "js_neg (Fin x) = Fin (- x)"
| "js_neg PInf = NInf"
| "js_neg NInf = PInf"
| "js_neg NaN = NaN"

fun js_add :: "jsnum \<Rightarrow> jsnum \<Rightarrow> jsnum" where
  "js_add NaN _ = NaN"
| "js_add _ NaN = NaN"
| "js_add (Fin x) (Fin y) = fin (x + y)"
| "js_add PInf NInf = NaN"
| "js_add NInf PInf = NaN"
| "js_add PInf _ = PInf"
| "js_add NInf _ = NInf"
| "js_add (Fin x) PInf = PInf"
| "js_add (Fin x) NInf = NInf"

definition js_sub :: "jsnum \<Rightarrow> jsnum \<Rightarrow> jsnum" where
  "js_sub a b = js_add a (js_neg b)"

fun js_mul :: "jsnum \<Rightarrow> jsnum \<Rightarrow> jsnum" where
  "js_mul NaN _ = NaN"
| "js_mul _ NaN = NaN"
| "js_mul (Fin x) (Fin y) = fin (x * y)"
| "js_mul (Fin x) PInf = (if x = 0 then NaN else if 0 < x then PInf else NInf)"
| "js_mul (Fin x) NInf = (if x = 0 then NaN else if 0 < x then NInf else PInf)"
| "js_mul PInf (Fin y) = (if y = 0 then NaN else if 0 < y then PInf else NInf)"
| "js_mul NInf (Fin y) = (if y = 0 then NaN else if 0 < y then NInf else PInf)"
| "js_mul PInf PInf = PInf"
| "js_mul PInf NInf = NInf"
| "js_mul NInf PInf = NInf"
| "js_mul NInf NInf = PInf"

fun js_div :: "jsnum \<Rightarrow> jsnum \<Rightarrow> jsnum" where
  "js_div NaN _ = NaN"
| "js_div _ NaN = NaN"
| "js_div (Fin x) (Fin y) =
     (if y = 0 then (if x = 0 then NaN else if 0 < x then PInf else NInf) else fin (x / y))"
| "js_div (Fin x) PInf = Fin 0"
| "js_div (Fin x) NInf = Fin 0"
| "js_div PInf (Fin y) = (if 0 \<le> y then PInf else NInf)"
| "js_div NInf (Fin y) = (if 0 \<le> y then NInf else PInf)"
| "js_div PInf _ = NaN"
| "js_div NInf _ = NaN"

text \<open>\<^verbatim>\<open>x ** 2\<close>\<close>

fun js_sq :: "jsnum \<Rightarrow> jsnum" where
  "js_sq (Fin x) = fin (x\<^sup>2)"
| "js_sq PInf = PInf"
| "js_sq NInf = PInf"
| "js_sq NaN = NaN"

fun js_sin :: "jsnum \<Rightarrow> jsnum" where
  "js_sin (Fin x) = Fin (sin x)"
| "js_sin _ = NaN"

fun js_cos :: "jsnum \<Rightarrow> jsnum" where
  "js_cos (Fin x) = Fin (cos x)"
| "js_cos _ = NaN"

fun js_sqrt :: "jsnum \<Rightarrow> jsnum" where
  "js_sqrt (Fin x) = (if x < 0 then NaN else Fin (sqrt x))"
| "js_sqrt PInf = PInf"
| "js_sqrt NInf = NaN"
| "js_sqrt NaN = NaN"

text \<open>\<^verbatim>\<open>Math.atan2(y, x)\<close>, a zero argument being \<open>+0\<close>.\<close>

fun js_atan2 :: "jsnum \<Rightarrow> jsnum \<Rightarrow> jsnum" where
  "js_atan2 NaN _ = NaN"
| "js_atan2 _ NaN = NaN"
| "js_atan2 (Fin y) (Fin x) =
     (if 0 < x then Fin (arctan (y / x))
      else if x < 0 then (if 0 \<le> y then Fin (arctan (y / x) + pi) else Fin (arctan (y / x) - pi))
      else if 0 < y then Fin (pi / 2)
      else if y < 0 then Fin (- pi / 2)
      else Fin 0)"
| "js_atan2 (Fin y) PInf = Fin 0"
| "js_atan2 (Fin y) NInf = (if 0 \<le> y then Fin pi else Fin (- pi))"
| "js_atan2 PInf (Fin x) = Fin (pi / 2)"
| "js_atan2 NInf (Fin x) = Fin (- pi / 2)"
| "js_atan2 PInf PInf = Fin (pi / 4)"
| "js_atan2 PInf NInf = Fin (3 * pi / 4)"
| "js_atan2 NInf PInf = Fin (- pi / 4)"
| "js_atan2 NInf NInf = Fin (- 3 * pi / 4)"

text \<open>\<^verbatim>\<open>Math.round\<close>: the nearest integer, a tie going up.\<close>

fun js_round :: "jsnum \<Rightarrow> jsnum" where
  "js_round (Fin x) = Fin (of_int \<lfloor>x + 1 / 2\<rfloor>)"
| "js_round v = v"

section \<open>The great-circle distance (haversine.ts)\<close>

definition toRad :: "jsnum \<Rightarrow> jsnum" where
  "toRad deg = js_div (js_mul deg (Fin pi)) (Fin 180)"

definition haversine :: "jsnum \<Rightarrow> jsnum \<Rightarrow> jsnum \<Rightarrow> jsnum \<Rightarrow> jsnum" where
  "haversine lat1 lng1 lat2 lng2 =
     (let R = Fin 3958.8;
          dLat = toRad (js_sub lat2 lat1);
          dLng = toRad (js_sub lng2 lng1);
          a = js_add (js_sq (js_sin (js_div dLat (Fin 2))))
                (js_mul (js_mul (js_cos (toRad lat1)) (js_cos (toRad lat2)))
                   (js_sq (js_sin (js_div dLng (Fin 2)))));
          c = js_mul (Fin 2) (js_atan2 (js_sqrt a) (js_sqrt (js_sub (Fin 1) a)))
      in js_mul R c)"

text \<open>
  The quantity under the square roots, over the reals: the \<open>a\<close> of the haversine
  formula for coordinates given in degrees.
\<close>

definition hav_a :: "real \<Rightarrow> real \<Rightarrow> real \<Rightarrow> real \<Rightarrow> real" where
  "hav_a lat1 lng1 lat2 lng2 =
     (sin ((lat2 - lat1) * pi / 180 / 2))\<^sup>2 +
     cos (lat1 * pi / 180) * cos (lat2 * pi / 180) * (sin ((lng2 - lng1) * pi / 180 / 2))\<^sup>2"

section \<open>The geocode function (supabase/functions/geocode/index.ts)\<close>

subsection \<open>Data\<close>

datatype json = JNull | JBool bool | JNum real | JStr string | JArr "json list"
  | JObj "(string \<times> json) list"

record coords =
  lat :: real
  lng :: real

text \<open>
  The request body. The fields the handler destructures are strings (\<open>limit\<close> an
  integer), \<open>None\<close> being an absent or null field; \<open>field\<close> reads any other key of the
  body, whatever JSON value it holds.
\<close>

record body =
  action :: "string option"
  facility_id :: "string option"
  address :: "string option"
  query :: "string option"
  state :: "string option"
  limit :: "int option"
  field :: "string \<Rightarrow> json option"

text \<open>\<^verbatim>\<open>!x\<close> on a string field: absent, null and the empty string are falsy.\<close>

definition falsy :: "string option \<Rightarrow> bool" where
  "falsy v = (case v of None \<Rightarrow> True | Some s \<Rightarrow> s = [])"

text \<open>
  Modelled from the spec: a row of the \<^verbatim>\<open>facilities\<close> table, whose declaration is not in
  the repository. The migration adds the nullable columns \<^verbatim>\<open>lat\<close>, \<^verbatim>\<open>lng\<close> and
  \<^verbatim>\<open>geocoded_at\<close>; the handler names the columns \<^verbatim>\<open>facility_id\<close> and \<^verbatim>\<open>state\<close> and the
  boolean capability columns; \<open>f_address\<close> is the address field that the spec says a
  facility carries.
\<close>

record facility =
  f_facility_id :: string
  f_state :: string
  f_address :: string
  f_lat :: "real option"
  f_lng :: "real option"
  f_geocoded_at :: "string option"
  f_flag :: "string \<Rightarrow> bool option"

text \<open>An awaited call either throws (with a message) or returns.\<close>

datatype 'a fetched = Throws string | Returns 'a

text \<open>
  What the handler reads of the geocoding provider's JSON: \<^verbatim>\<open>data.status\<close>,
  \<^verbatim>\<open>data.error_message\<close> and \<^verbatim>\<open>data.results[0].geometry.location\<close> (\<open>None\<close> when that
  path does not exist, so that reading it throws a TypeError).
\<close>

record geo_data =
  g_status :: string
  g_error_message :: "string option"
  g_location :: "coords option"

text \<open>
  The world the function runs in: its environment variable, the provider (the HTTP status
  and the body it answers for an address), the log of the addresses sent to the provider,
  the table, whether the data layer fails a read or a write, and the clock.
\<close>

record world =
  api_key :: "string option"
  provider :: "string \<Rightarrow> (nat \<times> geo_data) fetched"
  calls :: "string list"
  facilities :: "facility list"
  select_fault :: "string option"
  update_fault :: "string option"
  clock :: string

text \<open>The errors \<^verbatim>\<open>geocodeAddress\<close> throws, one constructor for each message.\<close>

datatype failure =
    KeyNotSet
  | HttpStatus nat
  | RequestDenied string
  | ZeroResults
  | ProviderStatus string
  | Exception string

datatype message =
    Required string
  | LookupFailed string
  | CacheFailed string
  | DatabaseFailed string
  | UnknownAction "string option"
  | Thrown failure

datatype response =
    Preflight
  | FacilityOk coords bool
  | UserOk coords
  | NearestOk coords "(facility \<times> jsnum) list"
  | Error nat message

subsection \<open>geocodeAddress\<close>

definition geocodeAddress :: "world \<Rightarrow> string \<Rightarrow> (failure + coords) \<times> world" where
  "geocodeAddress w addr =
     (if falsy (api_key w) then (Inl KeyNotSet, w)
      else
        let w' = w\<lparr>calls := calls w @ [addr]\<rparr> in
        case provider w addr of
          Throws m \<Rightarrow> (Inl (Exception m), w')
        | Returns (st, d) \<Rightarrow>
            if \<not> (200 \<le> st \<and> st \<le> 299) then (Inl (HttpStatus st), w')
            else if g_status d = ''REQUEST_DENIED'' then
              (Inl (RequestDenied
                 (case g_error_message d of None \<Rightarrow> ''unknown reason'' | Some m \<Rightarrow> m)), w')
            else if g_status d = ''ZERO_RESULTS'' then (Inl ZeroResults, w')
            else if g_status d \<noteq> ''OK'' then (Inl (ProviderStatus (g_status d)), w')
            else (case g_location d of
                    None \<Rightarrow> (Inl (Exception ''TypeError''), w')
                  | Some location \<Rightarrow> (Inr \<lparr>lat = lat location, lng = lng location\<rparr>, w')))"

subsection \<open>The data layer\<close>

text \<open>
  \<^verbatim>\<open>.select("lat, lng").eq("facility_id", id).single()\<close>: the one row with that id; no
  row or several rows is an error.
\<close>

definition select_single :: "world \<Rightarrow> string \<Rightarrow> string + facility" where
  "select_single w fid =
     (case select_fault w of
        Some m \<Rightarrow> Inl m
      | None \<Rightarrow>
          (case filter (\<lambda>f. f_facility_id f = fid) (facilities w) of
             [r] \<Rightarrow> Inr r
           | _ \<Rightarrow> Inl ''JSON object requested, multiple (or no) rows returned''))"

text \<open>\<^verbatim>\<open>.update({lat, lng, geocoded_at}).eq("facility_id", id)\<close>; a failed update writes nothing.\<close>

definition update_coords :: "world \<Rightarrow> string \<Rightarrow> coords \<Rightarrow> string option \<times> world" where
  "update_coords w fid c =
     (case update_fault w of
        Some m \<Rightarrow> (Some m, w)
      | None \<Rightarrow>
          (None, w\<lparr>facilities :=
             map (\<lambda>f. if f_facility_id f = fid
                       then f\<lparr>f_lat := Some (lat c), f_lng := Some (lng c),
                              f_geocoded_at := Some (clock w)\<rparr>
                       else f) (facilities w)\<rparr>))"

text \<open>The filters of the query builder, and the rows a built query returns.\<close>

datatype cond = Eq_state string | Not_null_lat | Not_null_lng | Eq_true string

fun holds :: "facility \<Rightarrow> cond \<Rightarrow> bool" where
  "holds f (Eq_state s) = (f_state f = s)"
| "holds f Not_null_lat = (f_lat f \<noteq> None)"
| "holds f Not_null_lng = (f_lng f \<noteq> None)"
| "holds f (Eq_true k) = (f_flag f k = Some True)"

definition select_all :: "world \<Rightarrow> cond list \<Rightarrow> string + facility list" where
  "select_all w q =
     (case select_fault w of
        Some m \<Rightarrow> Inl m
      | None \<Rightarrow> Inr (filter (\<lambda>f. list_all (holds f) q) (facilities w)))"

subsection \<open>The "facility" action\<close>

definition facility_action :: "world \<Rightarrow> body \<Rightarrow> response \<times> world" where
  "facility_action w b =
     (if falsy (facility_id b) \<or> falsy (address b) then
        (Error 400 (Required ''facility_id and address are required''), w)
      else
        case select_single w (the (facility_id b)) of
          Inl m \<Rightarrow> (Error 404 (LookupFailed m), w)
        | Inr existing \<Rightarrow>
            if f_lat existing \<noteq> None \<and> f_lng existing \<noteq> None then
              (FacilityOk \<lparr>lat = the (f_lat existing), lng = the (f_lng existing)\<rparr> True, w)
            else
              (case geocodeAddress w (the (address b)) of
                 (Inl e, w') \<Rightarrow> (Error 500 (Thrown e), w')
               | (Inr c, w') \<Rightarrow>
                   (case update_coords w' (the (facility_id b)) c of
                      (Some m, w'') \<Rightarrow> (Error 500 (CacheFailed m), w'')
                    | (None, w'') \<Rightarrow> (FacilityOk c False, w''))))"

subsection \<open>The "user" action\<close>

definition user_action :: "world \<Rightarrow> body \<Rightarrow> response \<times> world" where
  "user_action w b =
     (if falsy (query b) then (Error 400 (Required ''query is required''), w)
      else
        case geocodeAddress w (the (query b)) of
          (Inl e, w') \<Rightarrow> (Error 500 (Thrown e), w')
        | (Inr c, w') \<Rightarrow> (UserOk c, w'))"

subsection \<open>The "nearest" action\<close>

definition booleanFilters :: "string list" where
  "booleanFilters =
     [''telehealth'', ''medicaid'', ''sliding_scale'', ''private_insurance'',
      ''trauma_care'', ''co_occurring'', ''serves_veterans'', ''serves_lgbtq'',
      ''serves_children'', ''serves_young_adults'', ''serves_seniors'',
      ''cbt'', ''dbt'', ''emdr'']"

text \<open>The loop over \<open>booleanFilters\<close>, adding \<^verbatim>\<open>.eq(key, true)\<close> where \<^verbatim>\<open>body[key] === true\<close>.\<close>

fun apply_filters :: "body \<Rightarrow> string list \<Rightarrow> cond list \<Rightarrow> cond list" where
  "apply_filters b [] q = q"
| "apply_filters b (key # keys) q =
     apply_filters b keys (if field b key = Some (JBool True) then q @ [Eq_true key] else q)"

definition build_query :: "body \<Rightarrow> cond list" where
  "build_query b =
     apply_filters b booleanFilters [Eq_state (the (state b)), Not_null_lat, Not_null_lng]"

text \<open>A null column read as a number is \<open>0\<close>.\<close>

definition num :: "real option \<Rightarrow> jsnum" where
  "num v = (case v of None \<Rightarrow> Fin 0 | Some x \<Rightarrow> Fin x)"

definition distance_miles :: "coords \<Rightarrow> facility \<Rightarrow> jsnum" where
  "distance_miles userCoords f =
     js_div (js_round (js_mul
       (haversine (Fin (lat userCoords)) (Fin (lng userCoords)) (num (f_lat f)) (num (f_lng f)))
       (Fin 10))) (Fin 10)"

text \<open>
  \<^verbatim>\<open>.sort((a, b) => a.distance_miles - b.distance_miles)\<close>: a stable sort, \<open>a\<close> going
  behind \<open>b\<close> when the comparator is positive (a NaN comparator counts as \<open>0\<close>). The
  order the engine gives under an inconsistent comparator is its own choice; here it is
  that of insertion from the right.
\<close>

fun positive :: "jsnum \<Rightarrow> bool" where
  "positive (Fin x) = (0 < x)"
| "positive PInf = True"
| "positive NInf = False"
| "positive NaN = False"


fun insert_by_distance ::
  "('a \<times> jsnum) \<Rightarrow> ('a \<times> jsnum) list \<Rightarrow> ('a \<times> jsnum) list" where
  "insert_by_distance a [] = [a]"
| "insert_by_distance a (b # bs) =
     (if positive (js_sub (snd a) (snd b)) then b # insert_by_distance a bs else a # b # bs)"

definition sort_by_distance :: "('a \<times> jsnum) list \<Rightarrow> ('a \<times> jsnum) list" where
  "sort_by_distance xs = foldr insert_by_distance xs []"

text \<open>\<^verbatim>\<open>.slice(0, end)\<close> for an integer \<open>end\<close>: a negative \<open>end\<close> counts from the back.\<close>

definition slice0 :: "int \<Rightarrow> 'a list \<Rightarrow> 'a list" where
  "slice0 e xs =
     (let len = int (length xs);
          final = (if e < 0 then max (len + e) 0 else min e len)
      in take (nat final) xs)"

text \<open>\<^verbatim>\<open>limit || 30\<close>: an absent, null or zero \<open>limit\<close> is falsy.\<close>

definition limit_or_30 :: "int option \<Rightarrow> int" where
  "limit_or_30 l = (case l of None \<Rightarrow> 30 | Some n \<Rightarrow> if n = 0 then 30 else n)"

definition withDistance :: "coords \<Rightarrow> int option \<Rightarrow> facility list \<Rightarrow> (facility \<times> jsnum) list" where
  "withDistance userCoords l fs =
     slice0 (limit_or_30 l)
       (sort_by_distance (map (\<lambda>f. (f, distance_miles userCoords f)) fs))"

definition nearest_action :: "world \<Rightarrow> body \<Rightarrow> response \<times> world" where
  "nearest_action w b =
     (if falsy (query b) \<or> falsy (state b) then
        (Error 400 (Required ''query and state are required''), w)
      else
        case geocodeAddress w (the (query b)) of
          (Inl e, w') \<Rightarrow> (Error 500 (Thrown e), w')
        | (Inr userCoords, w') \<Rightarrow>
            (case select_all w' (build_query b) of
               Inl m \<Rightarrow> (Error 500 (DatabaseFailed m), w')
             | Inr fs \<Rightarrow> (NearestOk userCoords (withDistance userCoords (limit b) fs), w')))"

subsection \<open>Deno.serve\<close>

text \<open>The request: its method, and its body when it parses as JSON.\<close>

record request =
  req_method :: string
  req_json :: "body fetched"

definition serve :: "world \<Rightarrow> request \<Rightarrow> response \<times> world" where
  "serve w req =
     (if req_method req = ''OPTIONS'' then (Preflight, w)
      else
        case req_json req of
          Throws m \<Rightarrow> (Error 500 (Thrown (Exception m)), w)
        | Returns b \<Rightarrow>
            if action b = Some ''facility'' then facility_action w b
            else if action b = Some ''user'' then user_action w b
            else if action b = Some ''nearest'' then nearest_action w b
            else (Error 400 (UnknownAction (action b)), w))"

section \<open>The distance endpoint (GET /api/distance)\<close>









section \<open>Example data\<close>

text \<open>
  A small world for the closed instances below: a provider that answers every address
  with the same location, and a table of one facility that has not been geocoded yet.
\<close>

definition madison :: coords where
  "madison = \<lparr>lat = 43, lng = - 89\<rparr>"

definition answers :: "string \<Rightarrow> (nat \<times> geo_data) fetched" where
  "answers a =
     Returns (200, \<lparr>g_status = ''OK'', g_error_message = None, g_location = Some madison\<rparr>)"

definition clinic :: facility where
  "clinic =
     \<lparr>f_facility_id = ''F1'', f_state = ''WI'', f_address = ''1 Main St'',
      f_lat = None, f_lng = None, f_geocoded_at = None,
      f_flag = (\<lambda>k. if k = ''telehealth'' then Some True else None)\<rparr>"

definition base_world :: world where
  "base_world =
     \<lparr>api_key = Some ''key'', provider = answers, calls = [], facilities = [clinic],
      select_fault = None, update_fault = None, clock = ''2026-02-21T00:00:00.000Z''\<rparr>"

definition facility_request :: body where
  "facility_request =
     \<lparr>action = Some ''facility'', facility_id = Some ''F1'', address = Some ''2 Side St'',
      query = None, state = None, limit = None, field = (\<lambda>k. None)\<rparr>"

definition nearest_request :: body where
  "nearest_request =
     \<lparr>action = Some ''nearest'', facility_id = None, address = None,
      query = Some ''Madison'', state = Some ''WI'', limit = Some 0,
      field = (\<lambda>k. if k = ''telehealth'' then Some (JBool True) else None)\<rparr>"

text \<open>The same facility and world after the facility has been geocoded and cached.\<close>

definition geocoded_clinic :: facility where
  "geocoded_clinic =
     clinic\<lparr>f_lat := Some 43, f_lng := Some (- 89),
       f_geocoded_at := Some ''2026-02-21T00:00:00.000Z''\<rparr>"

definition cached_world :: world where
  "cached_world = base_world\<lparr>calls := [''2 Side St''], facilities := [geocoded_clinic]\<rparr>"

text \<open>A world with two geocoded facilities at the same place.\<close>

definition two_world :: world where
  "two_world =
     base_world\<lparr>facilities := [geocoded_clinic, geocoded_clinic\<lparr>f_facility_id := ''F2''\<rparr>]\<rparr>"


text \<open>A request that sets a listed filter, a listed key to a string and an unlisted key.\<close>

definition noisy_request :: body where
  "noisy_request =
     nearest_request\<lparr>field :=
       (\<lambda>k. if k = ''telehealth'' then Some (JBool True)
            else if k = ''medicaid'' then Some (JBool False)
            else if k = ''cbt'' then Some (JStr ''true'')
            else if k = ''dbt'' then Some (JNum 1)
            else if k = ''wheelchair'' then Some (JBool True)
            else None)\<rparr>"

text \<open>A world whose facility has a latitude but no longitude.\<close>

definition half_world :: world where
  "half_world = base_world\<lparr>facilities := [clinic\<lparr>f_lat := Some 1\<rparr>]\<rparr>"




section \<open>Properties of the number model\<close>

lemma ovf_pos: "0 < ovf"
  by (simp add: ovf_def)

lemma ovf_big: "4 * 10 ^ 307 < ovf"
  by (simp add: ovf_def)

lemma fin_Fin: "\<bar>r\<bar> < ovf \<Longrightarrow> fin r = Fin r"
  by (auto simp: fin_def)














section \<open>The great-circle distance is a finite number\<close>

lemma hav_core_bounds:
  fixes p q s :: real
  assumes "0 \<le> s" "s \<le> 1"
  shows "0 \<le> (sin ((q - p) / 2))\<^sup>2 + cos p * cos q * s"
    and "(sin ((q - p) / 2))\<^sup>2 + cos p * cos q * s \<le> 1"
proof -
  have s2: "(sin ((q - p) / 2))\<^sup>2 = (1 - cos (q - p)) / 2"
  proof -
    have "cos (q - p) = cos (2 * ((q - p) / 2))"
      by (rule arg_cong [where f = cos]) simp
    also have "\<dots> = 1 - 2 * (sin ((q - p) / 2))\<^sup>2"
      by (rule cos_double_sin)
    finally show ?thesis by simp
  qed
  have cc: "cos p * cos q = (cos (q - p) + cos (q + p)) / 2"
    by (simp add: cos_diff cos_add)
  have e: "(sin ((q - p) / 2))\<^sup>2 + cos p * cos q * s
      = 1 / 2 - (1 - s) * cos (q - p) / 2 + s * cos (q + p) / 2"
    unfolding s2 cc by (simp add: field_simps)
  have a1: "(1 - s) * cos (q - p) \<le> (1 - s) * 1"
    by (rule mult_left_mono) (use assms in auto)
  have a2: "(1 - s) * (- 1) \<le> (1 - s) * cos (q - p)"
    by (rule mult_left_mono) (use assms in auto)
  have b1: "s * cos (q + p) \<le> s * 1"
    by (rule mult_left_mono) (use assms in auto)
  have b2: "s * (- 1) \<le> s * cos (q + p)"
    by (rule mult_left_mono) (use assms in auto)
  show "0 \<le> (sin ((q - p) / 2))\<^sup>2 + cos p * cos q * s"
    unfolding e using a1 b2 by simp
  show "(sin ((q - p) / 2))\<^sup>2 + cos p * cos q * s \<le> 1"
    unfolding e using a2 b1 by simp
qed

lemma sin_sq_unit: "0 \<le> (sin (x::real))\<^sup>2 \<and> (sin x)\<^sup>2 \<le> 1"
  using abs_sin_le_one [of x] by (simp add: abs_square_le_1)

lemma hav_a_bounds: "0 \<le> hav_a lat1 lng1 lat2 lng2 \<and> hav_a lat1 lng1 lat2 lng2 \<le> 1"
proof -
  let ?s = "(sin ((lng2 - lng1) * pi / 180 / 2))\<^sup>2"
  have eq: "(lat2 - lat1) * pi / 180 / 2 = (lat2 * pi / 180 - lat1 * pi / 180) / 2"
    by (simp add: field_simps)
  show ?thesis
    unfolding hav_a_def eq
    using hav_core_bounds [where s = ?s and p = "lat1 * pi / 180" and q = "lat2 * pi / 180"] sin_sq_unit [of "(lng2 - lng1) * pi / 180 / 2"]
    by simp
qed

lemma ovf_big2: "10 ^ 308 < ovf"
  by (simp add: ovf_def)

lemma abs_pi_mult: "\<bar>x\<bar> \<le> b \<Longrightarrow> \<bar>x * pi\<bar> \<le> b * 4"
proof -
  assume a: "\<bar>x\<bar> \<le> b"
  have "\<bar>x * pi\<bar> = \<bar>x\<bar> * pi" by (simp add: abs_mult)
  also have "\<dots> \<le> b * 4"
    by (rule mult_mono) (use a pi_less_4 in auto)
  finally show ?thesis .
qed

lemma toRad_Fin:
  assumes "\<bar>x\<bar> \<le> 2 * 10 ^ 307"
  shows "toRad (Fin x) = Fin (x * pi / 180)"
proof -
  have b: "\<bar>x * pi\<bar> \<le> 2 * 10 ^ 307 * 4"
    by (rule abs_pi_mult [OF assms])
  have c: "(2 * 10 ^ 307 * 4 :: real) < ovf"
    by (simp add: ovf_def)
  from b c have m: "\<bar>x * pi\<bar> < ovf" by linarith
  have "\<bar>x * pi / 180\<bar> \<le> \<bar>x * pi\<bar>" by simp
  with m have d: "\<bar>x * pi / 180\<bar> < ovf" by linarith
  show ?thesis
    by (simp add: toRad_def fin_Fin [OF m] fin_Fin [OF d])
qed

lemma js_sub_Fin:
  assumes "\<bar>x\<bar> \<le> 10 ^ 307" "\<bar>y\<bar> \<le> 10 ^ 307"
  shows "js_sub (Fin x) (Fin y) = Fin (x - y)"
proof -
  have "\<bar>x + - y\<bar> \<le> 2 * 10 ^ 307" using assms by linarith
  moreover have "(2 * 10 ^ 307 :: real) < ovf" by (simp add: ovf_def)
  ultimately have "\<bar>x + - y\<bar> < ovf" by linarith
  then show ?thesis by (simp add: js_sub_def fin_Fin)
qed

lemma fin_unit: "\<bar>r\<bar> \<le> 1 \<Longrightarrow> fin r = Fin r"
proof -
  assume "\<bar>r\<bar> \<le> 1"
  moreover have "1 < ovf" by (simp add: ovf_def)
  ultimately show ?thesis by (intro fin_Fin) linarith
qed

lemma js_div_Fin2: "\<bar>r\<bar> < ovf \<Longrightarrow> js_div (Fin r) (Fin 2) = Fin (r / 2)"
proof -
  assume a: "\<bar>r\<bar> < ovf"
  have "\<bar>r / 2\<bar> \<le> \<bar>r\<bar>" by simp
  with a have "\<bar>r / 2\<bar> < ovf" by linarith
  then show ?thesis by (simp add: fin_Fin)
qed

lemma half_sin_sq:
  assumes "\<bar>x\<bar> \<le> 2 * 10 ^ 307"
  shows "js_sq (js_sin (js_div (toRad (Fin x)) (Fin 2))) = Fin ((sin (x * pi / 180 / 2))\<^sup>2)"
proof -
  have b: "\<bar>x * pi\<bar> \<le> 2 * 10 ^ 307 * 4"
    by (rule abs_pi_mult [OF assms])
  have c: "(2 * 10 ^ 307 * 4 :: real) < ovf"
    by (simp add: ovf_def)
  have "\<bar>x * pi / 180\<bar> \<le> \<bar>x * pi\<bar>" by simp
  with b c have d: "\<bar>x * pi / 180\<bar> < ovf" by linarith
  have e: "\<bar>(sin (x * pi / 180 / 2))\<^sup>2\<bar> \<le> 1"
    using sin_sq_unit [of "x * pi / 180 / 2"] by simp
  show ?thesis
    by (simp only: toRad_Fin [OF assms] js_div_Fin2 [OF d] js_sin.simps js_sq.simps fin_unit [OF e])
qed

lemma arctan_arcsin:
  fixes x y :: real
  assumes "0 < x" "x\<^sup>2 + y\<^sup>2 = 1"
  shows "arctan (y / x) = arcsin y"
proof -
  have "1 + (y / x)\<^sup>2 = (x\<^sup>2 + y\<^sup>2) / x\<^sup>2"
    using assms(1) by (simp add: field_simps power_divide)
  then have "sqrt (1 + (y / x)\<^sup>2) = 1 / x"
    using assms by (simp add: real_sqrt_divide)
  then have "sin (arctan (y / x)) = y"
    using assms(1) by (simp add: sin_arctan)
  then have "arcsin y = arcsin (sin (arctan (y / x)))" by simp
  also have "\<dots> = arctan (y / x)"
    using arctan_bounded [of "y / x"] by (intro arcsin_sin) auto
  finally show ?thesis by simp
qed

lemma atan2_sqrt:
  assumes "0 \<le> a" "a \<le> 1"
  shows "js_atan2 (js_sqrt (Fin a)) (js_sqrt (js_sub (Fin 1) (Fin a))) = Fin (arcsin (sqrt a))"
proof -
  have s: "js_sub (Fin 1) (Fin a) = Fin (1 - a)"
    using assms by (intro js_sub_Fin) auto
  show ?thesis
  proof (cases "a = 1")
    case True
    then show ?thesis by (simp add: js_sub_def fin_def ovf_def)
  next
    case False
    with assms have lt: "0 < sqrt (1 - a)" by simp
    have "(sqrt (1 - a))\<^sup>2 + (sqrt a)\<^sup>2 = 1" using assms by simp
    from arctan_arcsin [OF lt this] show ?thesis
      using assms lt by (simp add: s)
  qed
qed

lemma haversine_Fin:
  assumes "\<bar>lat1\<bar> \<le> 10 ^ 307" "\<bar>lng1\<bar> \<le> 10 ^ 307" "\<bar>lat2\<bar> \<le> 10 ^ 307" "\<bar>lng2\<bar> \<le> 10 ^ 307"
  shows "haversine (Fin lat1) (Fin lng1) (Fin lat2) (Fin lng2) =
    Fin (3958.8 * (2 * arcsin (sqrt (hav_a lat1 lng1 lat2 lng2))))"
proof -
  let ?a = "hav_a lat1 lng1 lat2 lng2"
  have dlat: "\<bar>lat2 - lat1\<bar> \<le> 2 * 10 ^ 307" and dlng: "\<bar>lng2 - lng1\<bar> \<le> 2 * 10 ^ 307"
    using assms by linarith+
  have l1: "\<bar>lat1\<bar> \<le> 2 * 10 ^ 307" and l2: "\<bar>lat2\<bar> \<le> 2 * 10 ^ 307"
    using assms by linarith+
  have cc: "\<bar>cos (lat1 * pi / 180) * cos (lat2 * pi / 180)\<bar> \<le> 1"
    using abs_cos_le_one [of "lat1 * pi / 180"] abs_cos_le_one [of "lat2 * pi / 180"]
    by (simp add: abs_mult mult_le_one)
  have ccs: "\<bar>cos (lat1 * pi / 180) * cos (lat2 * pi / 180) * (sin ((lng2 - lng1) * pi / 180 / 2))\<^sup>2\<bar> \<le> 1"
    using cc sin_sq_unit [of "(lng2 - lng1) * pi / 180 / 2"]
    by (simp add: abs_mult mult_le_one)
  have ab: "0 \<le> ?a" "?a \<le> 1" using hav_a_bounds by auto
  then have abs_a: "\<bar>?a\<bar> \<le> 1" by simp
  have a: "js_add (js_sq (js_sin (js_div (toRad (js_sub (Fin lat2) (Fin lat1))) (Fin 2))))
                (js_mul (js_mul (js_cos (toRad (Fin lat1))) (js_cos (toRad (Fin lat2))))
                   (js_sq (js_sin (js_div (toRad (js_sub (Fin lng2) (Fin lng1))) (Fin 2))))) = Fin ?a"
    by (simp only: js_sub_Fin [OF assms(3) assms(1)] js_sub_Fin [OF assms(4) assms(2)]
        half_sin_sq [OF dlat] half_sin_sq [OF dlng] toRad_Fin [OF l1] toRad_Fin [OF l2]
        js_cos.simps js_mul.simps js_add.simps fin_unit [OF cc] fin_unit [OF ccs]
        fin_unit [OF abs_a [unfolded hav_a_def]] hav_a_def)
  have r: "0 \<le> arcsin (sqrt ?a)" "arcsin (sqrt ?a) \<le> pi / 2"
  proof -
    have q: "0 \<le> sqrt ?a" "sqrt ?a \<le> 1" using ab by auto
    show "0 \<le> arcsin (sqrt ?a)"
      by (rule arcsin_nonneg) (use q in simp)
    show "arcsin (sqrt ?a) \<le> pi / 2"
      by (rule arcsin_ubound) (use q in linarith)+
  qed
  have "\<bar>2 * arcsin (sqrt ?a)\<bar> \<le> 4" using r pi_less_4 by simp
  moreover have "(4::real) < ovf" by (simp add: ovf_def)
  ultimately have c: "\<bar>2 * arcsin (sqrt ?a)\<bar> < ovf" by linarith
  have "\<bar>3958.8 * (2 * arcsin (sqrt ?a))\<bar> \<le> 3958.8 * 4"
    using r pi_less_4 by simp
  moreover have "(3958.8 * 4 :: real) < ovf" by (simp add: ovf_def)
  ultimately have d: "\<bar>3958.8 * (2 * arcsin (sqrt ?a))\<bar> < ovf" by linarith
  show ?thesis
    unfolding haversine_def Let_def a atan2_sqrt [OF ab]
    using fin_Fin [OF c] fin_Fin [OF d] by simp
qed

lemma hav_a_same: "hav_a lat1 lng1 lat1 lng1 = 0"
  by (simp add: hav_a_def)


section \<open>Symmetry and zero\<close>




section \<open>Finite inputs that overflow\<close>




section \<open>The facility action: cache and failures\<close>

lemma falsy_simps [simp]: "falsy None" "falsy (Some s) = (s = [])"
  by (simp_all add: falsy_def)

lemma geocodeAddress_facilities:
  "facilities (snd (geocodeAddress w a)) = facilities w"
  by (auto simp: geocodeAddress_def Let_def split: fetched.splits option.splits prod.splits)

lemma geocodeAddress_faults:
  "select_fault (snd (geocodeAddress w a)) = select_fault w"
  "update_fault (snd (geocodeAddress w a)) = update_fault w"
  "clock (snd (geocodeAddress w a)) = clock w"
  by (auto simp: geocodeAddress_def Let_def split: fetched.splits option.splits prod.splits)

lemma geocodeAddress_calls_ok:
  "geocodeAddress w a = (Inr c, w') \<Longrightarrow> calls w' = calls w @ [a]"
  by (auto simp: geocodeAddress_def Let_def split: fetched.splits option.splits prod.splits if_splits)

lemma select_single_row:
  assumes "select_single w fid = Inr r"
  shows "select_fault w = None" "filter (\<lambda>f. f_facility_id f = fid) (facilities w) = [r]"
    "f_facility_id r = fid"
proof -
  show f: "select_fault w = None"
    using assms by (auto simp: select_single_def split: option.splits)
  show l: "filter (\<lambda>f. f_facility_id f = fid) (facilities w) = [r]"
    using assms f by (auto simp: select_single_def split: list.splits)
  have "r \<in> set (filter (\<lambda>f. f_facility_id f = fid) (facilities w))"
    unfolding l by simp
  then show "f_facility_id r = fid" by simp
qed

lemma filter_map_update:
  assumes "\<And>f. key (g f) = key f"
  shows "filter (\<lambda>f. key f = k) (map (\<lambda>f. if key f = k then g f else f) xs) =
         map g (filter (\<lambda>f. key f = k) xs)"
  using assms by (induction xs) auto

lemma update_coords_ok:
  assumes "update_fault w = None"
  shows "update_coords w fid c =
    (None, w\<lparr>facilities := map (\<lambda>f. if f_facility_id f = fid
        then f\<lparr>f_lat := Some (lat c), f_lng := Some (lng c), f_geocoded_at := Some (clock w)\<rparr>
        else f) (facilities w)\<rparr>)"
  using assms by (simp add: update_coords_def)

lemma select_after_update:
  assumes "select_single w fid = Inr r" "update_coords w fid c = (None, w2)"
  shows "select_single w2 fid =
    Inr (r\<lparr>f_lat := Some (lat c), f_lng := Some (lng c), f_geocoded_at := Some (clock w)\<rparr>)"
proof -
  note s = select_single_row [OF assms(1)]
  have u: "update_fault w = None"
    using assms(2) by (auto simp: update_coords_def split: option.splits)
  have w2: "w2 = w\<lparr>facilities := map (\<lambda>f. if f_facility_id f = fid
        then f\<lparr>f_lat := Some (lat c), f_lng := Some (lng c), f_geocoded_at := Some (clock w)\<rparr>
        else f) (facilities w)\<rparr>"
    using assms(2) unfolding update_coords_ok [OF u] by simp
  have "filter (\<lambda>f. f_facility_id f = fid) (facilities w2) =
     map (\<lambda>f. f\<lparr>f_lat := Some (lat c), f_lng := Some (lng c), f_geocoded_at := Some (clock w)\<rparr>)
       (filter (\<lambda>f. f_facility_id f = fid) (facilities w))"
    unfolding w2 by (simp add: filter_map_update [where key = f_facility_id])
  then show ?thesis
    using s(1) by (simp add: select_single_def s(2) w2)
qed

lemma select_single_cong:
  "select_fault w' = select_fault w \<Longrightarrow> facilities w' = facilities w \<Longrightarrow>
   select_single w' fid = select_single w fid"
  unfolding select_single_def by (simp split: option.splits)

lemma first_call:
  "facility_action base_world facility_request = (FacilityOk madison False, cached_world)"
  by (simp add: facility_action_def select_single_def geocodeAddress_def update_coords_def
      base_world_def facility_request_def clinic_def answers_def madison_def cached_world_def
      geocoded_clinic_def Let_def)

text \<open>
  C2. When a call of the "facility" action has answered with a coordinate (freshly geocoded
  and cached, or already cached), the same request made again answers with the same
  coordinate, marked as cached, and leaves the world as it is: in particular the log of
  provider calls does not grow.
\<close>

theorem facility_second_call:
  assumes "facility_action w b = (FacilityOk c cached, w1)"
  shows "facility_action w1 b = (FacilityOk c True, w1)"
proof -
  have ok: "\<not> falsy (facility_id b)" "\<not> falsy (address b)"
    using assms by (auto simp: facility_action_def split: if_splits)
  obtain r where r: "select_single w (the (facility_id b)) = Inr r"
    using assms ok by (auto simp: facility_action_def split: sum.splits)
  show ?thesis
  proof (cases "f_lat r \<noteq> None \<and> f_lng r \<noteq> None")
    case True
    then have "w1 = w" "c = \<lparr>lat = the (f_lat r), lng = the (f_lng r)\<rparr>"
      using assms ok r by (auto simp: facility_action_def)
    then show ?thesis
      using True ok r by (auto simp: facility_action_def)
  next
    case False
    obtain w' where g: "geocodeAddress w (the (address b)) = (Inr c, w')"
      and u: "update_coords w' (the (facility_id b)) c = (None, w1)"
      using assms ok r False
      by (auto simp: facility_action_def split: sum.splits prod.splits option.splits)
    have r': "select_single w' (the (facility_id b)) = Inr r"
      using select_single_cong [of w' w] geocodeAddress_facilities [of w "the (address b)"]
        geocodeAddress_faults(1) [of w "the (address b)"] g r by simp
    from select_after_update [OF r' u] show ?thesis
      using ok by (simp add: facility_action_def)
  qed
qed

theorem facility_second_call_witness:
  "facility_action base_world facility_request = (FacilityOk madison False, cached_world) \<and>
   facility_action cached_world facility_request = (FacilityOk madison True, cached_world)"
  using facility_second_call [OF first_call] first_call by simp

text \<open>The failures of \<open>geocodeAddress\<close>, each from its own condition.\<close>

lemma geocodeAddress_failures:
  "falsy (api_key w) \<Longrightarrow> geocodeAddress w a = (Inl KeyNotSet, w)"
  "\<not> falsy (api_key w) \<Longrightarrow> provider w a = Throws m \<Longrightarrow>
     fst (geocodeAddress w a) = Inl (Exception m)"
  "\<not> falsy (api_key w) \<Longrightarrow> provider w a = Returns (st, d) \<Longrightarrow> \<not> (200 \<le> st \<and> st \<le> 299) \<Longrightarrow>
     fst (geocodeAddress w a) = Inl (HttpStatus st)"
  "\<not> falsy (api_key w) \<Longrightarrow> provider w a = Returns (st, d) \<Longrightarrow> 200 \<le> st \<and> st \<le> 299 \<Longrightarrow>
     g_status d = ''REQUEST_DENIED'' \<Longrightarrow>
     fst (geocodeAddress w a) =
       Inl (RequestDenied (case g_error_message d of None \<Rightarrow> ''unknown reason'' | Some m \<Rightarrow> m))"
  "\<not> falsy (api_key w) \<Longrightarrow> provider w a = Returns (st, d) \<Longrightarrow> 200 \<le> st \<and> st \<le> 299 \<Longrightarrow>
     g_status d = ''ZERO_RESULTS'' \<Longrightarrow> fst (geocodeAddress w a) = Inl ZeroResults"
  "\<not> falsy (api_key w) \<Longrightarrow> provider w a = Returns (st, d) \<Longrightarrow> 200 \<le> st \<and> st \<le> 299 \<Longrightarrow>
     g_status d \<noteq> ''REQUEST_DENIED'' \<Longrightarrow> g_status d \<noteq> ''ZERO_RESULTS'' \<Longrightarrow> g_status d \<noteq> ''OK'' \<Longrightarrow>
     fst (geocodeAddress w a) = Inl (ProviderStatus (g_status d))"
  by (simp_all add: geocodeAddress_def Let_def)

text \<open>
  C5. When the record is not cached and \<open>geocodeAddress\<close> fails, whatever the failure, the
  "facility" action answers 500 with that failure and the table is what it was.
\<close>

theorem facility_geocode_failure:
  assumes "\<not> falsy (facility_id b)" "\<not> falsy (address b)"
    and "select_single w (the (facility_id b)) = Inr existing"
    and "f_lat existing = None \<or> f_lng existing = None"
    and "geocodeAddress w (the (address b)) = (Inl e, w')"
  shows "facility_action w b = (Error 500 (Thrown e), w') \<and> facilities w' = facilities w"
proof -
  have "facilities w' = facilities w"
    using geocodeAddress_facilities [of w "the (address b)"] assms(5) by simp
  moreover have "facility_action w b = (Error 500 (Thrown e), w')"
    using assms by (auto simp: facility_action_def)
  ultimately show ?thesis by simp
qed

theorem facility_geocode_failure_witness:
  "\<not> falsy (facility_id facility_request) \<and> \<not> falsy (address facility_request) \<and>
   select_single (base_world\<lparr>api_key := None\<rparr>) (the (facility_id facility_request)) = Inr clinic \<and>
   (f_lat clinic = None \<or> f_lng clinic = None) \<and>
   geocodeAddress (base_world\<lparr>api_key := None\<rparr>) (the (address facility_request)) =
     (Inl KeyNotSet, base_world\<lparr>api_key := None\<rparr>) \<and>
   facility_action (base_world\<lparr>api_key := None\<rparr>) facility_request =
     (Error 500 (Thrown KeyNotSet), base_world\<lparr>api_key := None\<rparr>) \<and>
   facilities (base_world\<lparr>api_key := None\<rparr>) = facilities base_world"
proof -
  have h1: "\<not> falsy (facility_id facility_request)" "\<not> falsy (address facility_request)"
    by (simp_all add: facility_request_def)
  have h2: "select_single (base_world\<lparr>api_key := None\<rparr>) (the (facility_id facility_request)) = Inr clinic"
    by (simp add: select_single_def base_world_def facility_request_def clinic_def)
  have h3: "f_lat clinic = None \<or> f_lng clinic = None"
    by (simp add: clinic_def)
  have h4: "geocodeAddress (base_world\<lparr>api_key := None\<rparr>) (the (address facility_request)) =
     (Inl KeyNotSet, base_world\<lparr>api_key := None\<rparr>)"
    by (simp add: geocodeAddress_def base_world_def)
  from facility_geocode_failure [OF h1 h2 h3 h4] h1 h2 h3 h4 show ?thesis by simp
qed

text \<open>
  C10, as stated, fails in one point: the address that is geocoded is the one of the
  request, not the one stored with the facility. Here the facility has a latitude and no
  longitude, its stored address is \<open>1 Main St\<close>, and the provider is asked for \<open>2 Side St\<close>.
\<close>

theorem facility_request_address_counterexample:
  "map f_address (facilities half_world) = [''1 Main St''] \<and>
   map f_lat (facilities half_world) = [Some 1] \<and>
   map f_lng (facilities half_world) = [None] \<and>
   calls (snd (facility_action half_world facility_request)) = [''2 Side St'']"
  by (simp add: facility_action_def select_single_def geocodeAddress_def update_coords_def
      half_world_def base_world_def facility_request_def clinic_def answers_def madison_def Let_def)

text \<open>
  C10, amended. A record is a cache hit only when both \<open>lat\<close> and \<open>lng\<close> are non-null:
  when one of them is null, the address of the request is geocoded, the answer is the fresh
  coordinate (not marked as cached), and the record is the old one with \<open>lat\<close>, \<open>lng\<close> and
  \<open>geocoded_at\<close> overwritten.
\<close>

theorem facility_partial_coordinate:
  assumes "\<not> falsy (facility_id b)" "\<not> falsy (address b)"
    and "select_single w (the (facility_id b)) = Inr existing"
    and "f_lat existing = None \<or> f_lng existing = None"
    and "geocodeAddress w (the (address b)) = (Inr c, w')"
    and "update_fault w = None"
  shows "fst (facility_action w b) = FacilityOk c False \<and>
         calls (snd (facility_action w b)) = calls w @ [the (address b)] \<and>
         select_single (snd (facility_action w b)) (the (facility_id b)) =
           Inr (existing\<lparr>f_lat := Some (lat c), f_lng := Some (lng c),
                 f_geocoded_at := Some (clock w)\<rparr>)"
proof -
  have faults: "update_fault w' = None" "clock w' = clock w"
    using geocodeAddress_faults [of w "the (address b)"] assms(5,6) by simp_all
  obtain w1 where u: "update_coords w' (the (facility_id b)) c = (None, w1)"
    by (simp add: update_coords_ok [OF faults(1)])
  have act: "facility_action w b = (FacilityOk c False, w1)"
    using assms u by (auto simp: facility_action_def)
  have r': "select_single w' (the (facility_id b)) = Inr existing"
    using select_single_cong [of w' w] geocodeAddress_facilities [of w "the (address b)"]
      geocodeAddress_faults(1) [of w "the (address b)"] assms(3,5) by simp
  have c1: "calls w1 = calls w @ [the (address b)]"
    using u geocodeAddress_calls_ok [OF assms(5)]
    by (simp add: update_coords_ok [OF faults(1)]) auto
  from select_after_update [OF r' u] c1 act faults show ?thesis by simp
qed

theorem facility_partial_coordinate_witness:
  "\<not> falsy (facility_id facility_request) \<and> \<not> falsy (address facility_request) \<and>
   select_single half_world ''F1'' = Inr (clinic\<lparr>f_lat := Some 1\<rparr>) \<and>
   f_lng (clinic\<lparr>f_lat := Some 1\<rparr>) = None \<and>
   geocodeAddress half_world ''2 Side St'' = (Inr madison, half_world\<lparr>calls := [''2 Side St'']\<rparr>) \<and>
   update_fault half_world = None \<and>
   fst (facility_action half_world facility_request) = FacilityOk madison False \<and>
   calls (snd (facility_action half_world facility_request)) = [''2 Side St''] \<and>
   select_single (snd (facility_action half_world facility_request)) ''F1'' =
     Inr (clinic\<lparr>f_lat := Some 43, f_lng := Some (- 89),
           f_geocoded_at := Some ''2026-02-21T00:00:00.000Z''\<rparr>)"
proof -
  have h1: "\<not> falsy (facility_id facility_request)" "\<not> falsy (address facility_request)"
    by (simp_all add: facility_request_def)
  have h2: "select_single half_world (the (facility_id facility_request)) = Inr (clinic\<lparr>f_lat := Some 1\<rparr>)"
    by (simp add: select_single_def half_world_def base_world_def facility_request_def clinic_def)
  have h3: "f_lat (clinic\<lparr>f_lat := Some 1\<rparr>) = None \<or> f_lng (clinic\<lparr>f_lat := Some 1\<rparr>) = None"
    by (simp add: clinic_def)
  have h4: "geocodeAddress half_world (the (address facility_request)) =
     (Inr madison, half_world\<lparr>calls := [''2 Side St'']\<rparr>)"
    by (simp add: geocodeAddress_def half_world_def base_world_def facility_request_def
        answers_def madison_def Let_def)
  have h5: "update_fault half_world = None"
    by (simp add: half_world_def base_world_def)
  have v: "the (facility_id facility_request) = ''F1''" "the (address facility_request) = ''2 Side St''"
    "calls half_world = []" "clock half_world = ''2026-02-21T00:00:00.000Z''"
    "lat madison = 43" "lng madison = - 89"
    by (simp_all add: facility_request_def half_world_def base_world_def madison_def)
  from facility_partial_coordinate [OF h1 h2 h3 h4 h5] h1 h2 h3 h4 h5 show ?thesis
    by (simp add: v clinic_def)
qed

section \<open>The nearest action: filters, order and limit\<close>

lemma apply_filters_set:
  "set (apply_filters b keys q) =
     set q \<union> {Eq_true k | k. k \<in> set keys \<and> field b k = Some (JBool True)}"
  by (induction keys arbitrary: q) auto

lemma build_query_set:
  "set (build_query b) =
     {Eq_state (the (state b)), Not_null_lat, Not_null_lng} \<union>
     {Eq_true k | k. k \<in> set booleanFilters \<and> field b k = Some (JBool True)}"
  by (auto simp: build_query_def apply_filters_set)

lemma apply_filters_cong:
  assumes "\<forall>k \<in> set keys. (field b' k = Some (JBool True)) = (field b k = Some (JBool True))"
  shows "apply_filters b' keys q = apply_filters b keys q"
  using assms by (induction keys arbitrary: q) auto

lemma insert_by_distance_set: "set (insert_by_distance a bs) = insert a (set bs)"
  by (induction bs) auto

lemma sort_by_distance_set: "set (sort_by_distance xs) = set xs"
  unfolding sort_by_distance_def by (induction xs) (auto simp: insert_by_distance_set)

lemma insert_by_distance_length: "length (insert_by_distance a bs) = Suc (length bs)"
  by (induction bs) auto

lemma sort_by_distance_length: "length (sort_by_distance xs) = length xs"
  unfolding sort_by_distance_def by (induction xs) (auto simp: insert_by_distance_length)

lemma slice0_set: "set (slice0 e xs) \<subseteq> set xs"
  by (auto simp: slice0_def Let_def dest: in_set_takeD)


lemma withDistance_set:
  "set (withDistance uc l fs) \<subseteq> (\<lambda>f. (f, distance_miles uc f)) ` set fs"
  unfolding withDistance_def using slice0_set [of "limit_or_30 l"]
  by (fastforce simp: sort_by_distance_set)

lemma nearest_ok_cases:
  assumes "nearest_action w b = (NearestOk uc results, w')"
  obtains fs where "\<not> falsy (query b)" "\<not> falsy (state b)"
    "geocodeAddress w (the (query b)) = (Inr uc, w')"
    "select_all w' (build_query b) = Inr fs"
    "results = withDistance uc (limit b) fs"
  using assms
  by (auto simp: nearest_action_def split: if_splits sum.splits prod.splits)

lemma select_all_rows:
  assumes "select_all w q = Inr fs"
  shows "fs = filter (\<lambda>f. list_all (holds f) q) (facilities w)"
  using assms by (auto simp: select_all_def split: option.splits)










lemma distance_miles_same:
  assumes "f_lat f = Some (lat c)" "f_lng f = Some (lng c)" "\<bar>lat c\<bar> \<le> 10 ^ 307" "\<bar>lng c\<bar> \<le> 10 ^ 307"
  shows "distance_miles c f = Fin 0"
proof -
  have "haversine (Fin (lat c)) (Fin (lng c)) (Fin (lat c)) (Fin (lng c)) = Fin 0"
    by (simp add: haversine_Fin [OF assms(3) assms(4) assms(3) assms(4)] hav_a_same)
  then show ?thesis
    using ovf_pos by (simp add: distance_miles_def num_def assms(1,2) fin_def)
qed

lemma clinic_distance:
  "distance_miles madison geocoded_clinic = Fin 0"
  "distance_miles madison (geocoded_clinic\<lparr>f_facility_id := ''F2''\<rparr>) = Fin 0"
  by (rule distance_miles_same; simp add: madison_def geocoded_clinic_def)+

lemma geocode_madison:
  "geocodeAddress cached_world ''Madison'' = (Inr madison, cached_world\<lparr>calls := [''2 Side St'', ''Madison'']\<rparr>)"
  "geocodeAddress two_world ''Madison'' = (Inr madison, two_world\<lparr>calls := [''Madison'']\<rparr>)"
  by (simp_all add: geocodeAddress_def cached_world_def two_world_def base_world_def answers_def
      madison_def Let_def)

lemma nearest_cached:
  "nearest_action cached_world nearest_request =
     (NearestOk madison [(geocoded_clinic, Fin 0)], cached_world\<lparr>calls := [''2 Side St'', ''Madison'']\<rparr>)"
proof -
  have q: "select_all (cached_world\<lparr>calls := [''2 Side St'', ''Madison'']\<rparr>) (build_query nearest_request)
      = Inr [geocoded_clinic]"
    by (simp add: select_all_def build_query_def booleanFilters_def nearest_request_def
        cached_world_def base_world_def geocoded_clinic_def clinic_def)
  have w: "withDistance madison (limit nearest_request) [geocoded_clinic] = [(geocoded_clinic, Fin 0)]"
    by (simp add: withDistance_def sort_by_distance_def clinic_distance slice0_def limit_or_30_def
        nearest_request_def)
  have r: "the (query nearest_request) = ''Madison''" "\<not> falsy (query nearest_request)"
    "\<not> falsy (state nearest_request)"
    by (simp_all add: nearest_request_def)
  show ?thesis
    unfolding nearest_action_def by (simp add: r geocode_madison q w)
qed


text \<open>
  C3. Every facility in the result of the "nearest" action is a row of the table whose
  state is the state of the request, whose \<open>lat\<close> and \<open>lng\<close> are not null, and on which
  every listed filter that the request sets to \<open>true\<close> is \<open>true\<close>.
\<close>

theorem nearest_results_match:
  assumes "nearest_action w b = (NearestOk uc results, w')"
  shows "\<forall>(f, d) \<in> set results.
           f \<in> set (facilities w) \<and> f_state f = the (state b) \<and>
           f_lat f \<noteq> None \<and> f_lng f \<noteq> None \<and>
           (\<forall>k \<in> set booleanFilters. field b k = Some (JBool True) \<longrightarrow> f_flag f k = Some True)"
proof -
  from assms obtain fs where g: "geocodeAddress w (the (query b)) = (Inr uc, w')"
    and sel: "select_all w' (build_query b) = Inr fs"
    and res: "results = withDistance uc (limit b) fs"
    by (rule nearest_ok_cases)
  have tab: "facilities w' = facilities w"
    using geocodeAddress_facilities [of w "the (query b)"] g by simp
  have fs: "fs = filter (\<lambda>f. list_all (holds f) (build_query b)) (facilities w)"
    using select_all_rows [OF sel] tab by simp
  have row: "f \<in> set (facilities w) \<and> f_state f = the (state b) \<and>
           f_lat f \<noteq> None \<and> f_lng f \<noteq> None \<and>
           (\<forall>k \<in> set booleanFilters. field b k = Some (JBool True) \<longrightarrow> f_flag f k = Some True)"
    if "f \<in> set fs" for f
  proof -
    from that have mem: "f \<in> set (facilities w)" and all: "\<forall>c \<in> set (build_query b). holds f c"
      by (auto simp: fs list_all_iff)
    have "holds f (Eq_state (the (state b)))" "holds f Not_null_lat" "holds f Not_null_lng"
      using all by (auto simp: build_query_set)
    moreover have "holds f (Eq_true k)" if "k \<in> set booleanFilters" "field b k = Some (JBool True)" for k
      using all that by (auto simp: build_query_set)
    ultimately show ?thesis using mem by auto
  qed
  show ?thesis
    using withDistance_set [of uc "limit b" fs] row unfolding res by fastforce
qed

theorem nearest_results_match_witness:
  "nearest_action cached_world nearest_request =
     (NearestOk madison [(geocoded_clinic, Fin 0)],
      cached_world\<lparr>calls := [''2 Side St'', ''Madison'']\<rparr>) \<and>
   field nearest_request ''telehealth'' = Some (JBool True) \<and>
   geocoded_clinic \<in> set (facilities cached_world) \<and>
   f_state geocoded_clinic = ''WI'' \<and>
   f_lat geocoded_clinic \<noteq> None \<and> f_lng geocoded_clinic \<noteq> None \<and>
   f_flag geocoded_clinic ''telehealth'' = Some True"
proof -
  have k: "''telehealth'' \<in> set booleanFilters" by (simp add: booleanFilters_def)
  have t: "field nearest_request ''telehealth'' = Some (JBool True)"
    "the (state nearest_request) = ''WI''"
    by (simp_all add: nearest_request_def)
  from nearest_results_match [OF nearest_cached] k t nearest_cached show ?thesis
    by auto
qed

text \<open>
  C9. The query of the "nearest" action is the three base conditions together with one
  condition \<open>key = true\<close> for each of the fourteen listed keys whose value in the body is
  exactly the boolean \<open>true\<close>; two bodies that agree on the query, the state, the limit and
  on which listed keys are \<open>true\<close> get the same answer, whatever else they hold.
\<close>

theorem nearest_only_listed_true_flags:
  assumes "query b' = query b" "state b' = state b" "limit b' = limit b"
    and "\<forall>k \<in> set booleanFilters. (field b' k = Some (JBool True)) = (field b k = Some (JBool True))"
  shows "nearest_action w b' = nearest_action w b \<and>
         set (build_query b) =
           {Eq_state (the (state b)), Not_null_lat, Not_null_lng} \<union>
           {Eq_true k | k. k \<in> set booleanFilters \<and> field b k = Some (JBool True)} \<and>
         length booleanFilters = 14"
proof -
  have "build_query b' = build_query b"
    unfolding build_query_def using assms(2) apply_filters_cong [OF assms(4)] by simp
  then have "nearest_action w b' = nearest_action w b"
    unfolding nearest_action_def by (simp only: assms(1-3))
  moreover have "length booleanFilters = 14" by (simp add: booleanFilters_def)
  ultimately show ?thesis using build_query_set [of b] by simp
qed

theorem nearest_only_listed_true_flags_witness:
  "query noisy_request = query nearest_request \<and> state noisy_request = state nearest_request \<and>
   limit noisy_request = limit nearest_request \<and>
   field noisy_request ''medicaid'' = Some (JBool False) \<and>
   field noisy_request ''dbt'' = Some (JNum 1) \<and>
   field noisy_request ''wheelchair'' = Some (JBool True) \<and>
   field noisy_request ''cbt'' = Some (JStr ''true'') \<and>
   nearest_action cached_world noisy_request = nearest_action cached_world nearest_request \<and>
   set (build_query nearest_request) = {Eq_state ''WI'', Not_null_lat, Not_null_lng, Eq_true ''telehealth''}"
proof -
  have h: "query noisy_request = query nearest_request" "state noisy_request = state nearest_request"
    "limit noisy_request = limit nearest_request"
    by (simp_all add: noisy_request_def)
  have f: "\<forall>k \<in> set booleanFilters.
      (field noisy_request k = Some (JBool True)) = (field nearest_request k = Some (JBool True))"
    by (simp add: booleanFilters_def noisy_request_def nearest_request_def)
  have v: "field noisy_request ''wheelchair'' = Some (JBool True)"
    "field noisy_request ''cbt'' = Some (JStr ''true'')"
    "field noisy_request ''medicaid'' = Some (JBool False)"
    "field noisy_request ''dbt'' = Some (JNum 1)"
    by (simp_all add: noisy_request_def)
  have q: "set (build_query nearest_request) = {Eq_state ''WI'', Not_null_lat, Not_null_lng, Eq_true ''telehealth''}"
    by (auto simp: build_query_def booleanFilters_def nearest_request_def)
  from nearest_only_listed_true_flags [OF h f, of cached_world] h v q show ?thesis
    by simp
qed




section \<open>The distance endpoint: partial results\<close>








section \<open>New York to Los Angeles\<close>

text \<open>
  Bounds for \<open>sin\<close> and \<open>cos\<close> from their Maclaurin polynomials, and for \<open>\<pi>\<close> from
  \<open>sin (\<pi> / 6) = 1 / 2\<close>, carry an interval through the haversine formula.
\<close>

lemma sum_upto_8:
  fixes f :: "nat \<Rightarrow> real"
  shows "(\<Sum>m<7. f m) = f 0 + f 1 + f 2 + f 3 + f 4 + f 5 + f 6"
    and "(\<Sum>m<8. f m) = f 0 + f 1 + f 2 + f 3 + f 4 + f 5 + f 6 + f 7"
  by (simp_all add: numeral_eq_Suc)

lemma sin_coeffs:
  "sin_coeff 0 = 0" "sin_coeff 1 = 1" "sin_coeff 2 = 0" "sin_coeff 3 = - 1 / 6"
  "sin_coeff 4 = 0" "sin_coeff 5 = 1 / 120" "sin_coeff 6 = 0"
  by (simp_all add: sin_coeff_def fact_numeral)

lemma cos_coeffs:
  "cos_coeff 0 = 1" "cos_coeff 1 = 0" "cos_coeff 2 = - 1 / 2" "cos_coeff 3 = 0"
  "cos_coeff 4 = 1 / 24" "cos_coeff 5 = 0" "cos_coeff 6 = - 1 / 720" "cos_coeff 7 = 0"
  by (simp_all add: cos_coeff_def fact_numeral)

lemma sin_poly7: "(\<Sum>m<7. sin_coeff m * x ^ m) = x - x ^ 3 / 6 + x ^ 5 / 120"
  unfolding sum_upto_8 sin_coeffs by simp

lemma sin_taylor:
  fixes x :: real
  assumes "0 \<le> x"
  shows "x - x ^ 3 / 6 + x ^ 5 / 120 - x ^ 7 / 5040 \<le> sin x"
    and "sin x \<le> x - x ^ 3 / 6 + x ^ 5 / 120 + x ^ 7 / 5040"
proof -
  have f: "fact 7 = (5040 :: real)" by (simp add: fact_numeral)
  have "\<bar>sin x - (\<Sum>m<7. sin_coeff m * x ^ m)\<bar> \<le> inverse (fact 7) * \<bar>x\<bar> ^ 7"
    by (rule Maclaurin_sin_bound)
  then have b: "\<bar>sin x - (x - x ^ 3 / 6 + x ^ 5 / 120)\<bar> \<le> x ^ 7 / 5040"
    using assms unfolding sin_poly7 f by (simp add: field_simps)
  from b show "x - x ^ 3 / 6 + x ^ 5 / 120 - x ^ 7 / 5040 \<le> sin x" by linarith
  from b show "sin x \<le> x - x ^ 3 / 6 + x ^ 5 / 120 + x ^ 7 / 5040" by linarith
qed

lemma cos_poly8: "(\<Sum>m<8. cos_coeff m * x ^ m) = 1 - x ^ 2 / 2 + x ^ 4 / 24 - x ^ 6 / 720"
  unfolding sum_upto_8 cos_coeffs by simp

lemma cos_taylor:
  fixes x :: real
  assumes "0 < x"
  shows "1 - x ^ 2 / 2 + x ^ 4 / 24 - x ^ 6 / 720 - x ^ 8 / 40320 \<le> cos x"
    and "cos x \<le> 1 - x ^ 2 / 2 + x ^ 4 / 24 - x ^ 6 / 720 + x ^ 8 / 40320"
proof -
  have f: "fact 8 = (40320 :: real)" by (simp add: fact_numeral)
  from Maclaurin_cos_expansion2 [OF assms, of 8] obtain t where
    t: "cos x = (\<Sum>m<8. cos_coeff m * x ^ m) + cos (t + 1 / 2 * real 8 * pi) / fact 8 * x ^ 8"
    by auto
  let ?c = "cos (t + 1 / 2 * real 8 * pi)"
  have c: "- 1 \<le> ?c" "?c \<le> 1" by simp_all
  have p: "0 \<le> x ^ 8 / 40320" using assms by simp
  have e: "cos x = 1 - x ^ 2 / 2 + x ^ 4 / 24 - x ^ 6 / 720 + ?c * (x ^ 8 / 40320)"
    unfolding t cos_poly8 f by simp
  have "?c * (x ^ 8 / 40320) \<le> 1 * (x ^ 8 / 40320)"
    by (rule mult_right_mono [OF c(2) p])
  moreover have "(- 1) * (x ^ 8 / 40320) \<le> ?c * (x ^ 8 / 40320)"
    by (rule mult_right_mono [OF c(1) p])
  ultimately show "1 - x ^ 2 / 2 + x ^ 4 / 24 - x ^ 6 / 720 - x ^ 8 / 40320 \<le> cos x"
    and "cos x \<le> 1 - x ^ 2 / 2 + x ^ 4 / 24 - x ^ 6 / 720 + x ^ 8 / 40320"
    unfolding e by linarith+
qed

lemma pi_bounds: "3.14148 < pi" "pi < 3.14166"
proof -
  have half: "(1::real) \<le> pi / 2" using pi_ge_two by simp
  have lo: "sin (0.52358::real) < 1 / 2"
    by (rule le_less_trans [OF sin_taylor(2)]) (simp_all add: power_divide)
  have hi: "1 / 2 < sin (0.52361::real)"
    by (rule less_le_trans [OF _ sin_taylor(1)]) (simp_all add: power_divide)
  have "0.52358 < pi / 6"
  proof (rule ccontr)
    assume "\<not> 0.52358 < pi / 6"
    then have "pi / 6 \<le> 0.52358" by simp
    then have "sin (pi / 6) \<le> sin (0.52358::real)"
      by (intro sin_monotone_2pi_le) (use half in auto)
    with lo show False by (simp add: sin_30)
  qed
  then show "3.14148 < pi" by simp
  have "pi / 6 < 0.52361"
  proof (rule ccontr)
    assume "\<not> pi / 6 < 0.52361"
    then have "0.52361 \<le> pi / 6" by simp
    then have "sin (0.52361::real) \<le> sin (pi / 6)"
      by (intro sin_monotone_2pi_le) (use half in auto)
    with hi show False by (simp add: sin_30)
  qed
  then show "pi < 3.14166" by simp
qed

lemma sin_between:
  fixes x :: real
  assumes "0 \<le> xl" "xl \<le> x" "x \<le> xu" "xu \<le> 1"
    and "l \<le> xl - xl ^ 3 / 6 + xl ^ 5 / 120 - xl ^ 7 / 5040"
    and "xu - xu ^ 3 / 6 + xu ^ 5 / 120 + xu ^ 7 / 5040 \<le> u"
  shows "l \<le> sin x \<and> sin x \<le> u"
proof -
  have half: "(1::real) \<le> pi / 2" using pi_ge_two by simp
  have "sin xl \<le> sin x"
    by (rule sin_monotone_2pi_le) (use assms half in linarith)+
  moreover have "sin x \<le> sin xu"
    by (rule sin_monotone_2pi_le) (use assms half in linarith)+
  moreover have "xl - xl ^ 3 / 6 + xl ^ 5 / 120 - xl ^ 7 / 5040 \<le> sin xl"
    by (rule sin_taylor) (use assms in linarith)
  moreover have "sin xu \<le> xu - xu ^ 3 / 6 + xu ^ 5 / 120 + xu ^ 7 / 5040"
    by (rule sin_taylor) (use assms in linarith)
  ultimately show ?thesis using assms(5,6) by linarith
qed

lemma cos_between:
  fixes x :: real
  assumes "0 < xl" "xl \<le> x" "x \<le> xu" "xu \<le> 1"
    and "l \<le> 1 - xu ^ 2 / 2 + xu ^ 4 / 24 - xu ^ 6 / 720 - xu ^ 8 / 40320"
    and "1 - xl ^ 2 / 2 + xl ^ 4 / 24 - xl ^ 6 / 720 + xl ^ 8 / 40320 \<le> u"
  shows "l \<le> cos x \<and> cos x \<le> u"
proof -
  have p: "(1::real) \<le> pi" using pi_ge_two by simp
  have "cos xu \<le> cos x"
    by (rule cos_monotone_0_pi_le) (use assms p in linarith)+
  moreover have "cos x \<le> cos xl"
    by (rule cos_monotone_0_pi_le) (use assms p in linarith)+
  moreover have "1 - xu ^ 2 / 2 + xu ^ 4 / 24 - xu ^ 6 / 720 - xu ^ 8 / 40320 \<le> cos xu"
    by (rule cos_taylor) (use assms in linarith)
  moreover have "cos xl \<le> 1 - xl ^ 2 / 2 + xl ^ 4 / 24 - xl ^ 6 / 720 + xl ^ 8 / 40320"
    by (rule cos_taylor) (use assms in linarith)
  ultimately show ?thesis using assms(5,6) by linarith
qed

lemma scaled_pi:
  fixes q :: real
  assumes "0 \<le> q" "xl \<le> q * 3.14148" "q * 3.14166 \<le> xu"
  shows "xl \<le> q * pi \<and> q * pi \<le> xu"
proof -
  have "q * 3.14148 \<le> q * pi"
    by (rule mult_left_mono) (use pi_bounds assms in auto)
  moreover have "q * pi \<le> q * 3.14166"
    by (rule mult_left_mono) (use pi_bounds assms in auto)
  ultimately show ?thesis using assms by linarith
qed

lemma hav_combine:
  fixes s1 s2 c1 c2 :: real
  assumes "0 \<le> s1l" "s1l \<le> s1" "s1 \<le> s1u" "0 \<le> s2l" "s2l \<le> s2" "s2 \<le> s2u"
    and "0 \<le> c1l" "c1l \<le> c1" "c1 \<le> c1u" "0 \<le> c2l" "c2l \<le> c2" "c2 \<le> c2u"
  shows "s1l\<^sup>2 + c1l * c2l * s2l\<^sup>2 \<le> s1\<^sup>2 + c1 * c2 * s2\<^sup>2"
    and "s1\<^sup>2 + c1 * c2 * s2\<^sup>2 \<le> s1u\<^sup>2 + c1u * c2u * s2u\<^sup>2"
proof -
  have a: "s1l\<^sup>2 \<le> s1\<^sup>2" "s1\<^sup>2 \<le> s1u\<^sup>2" "s2l\<^sup>2 \<le> s2\<^sup>2" "s2\<^sup>2 \<le> s2u\<^sup>2"
    using assms by (auto intro!: power_mono)
  have b: "c1l * c2l \<le> c1 * c2" "c1 * c2 \<le> c1u * c2u"
    using assms by (auto intro!: mult_mono)
  have "c1l * c2l * s2l\<^sup>2 \<le> c1 * c2 * s2\<^sup>2"
    by (rule mult_mono) (use a b assms in auto)
  with a show "s1l\<^sup>2 + c1l * c2l * s2l\<^sup>2 \<le> s1\<^sup>2 + c1 * c2 * s2\<^sup>2" by linarith
  have "c1 * c2 * s2\<^sup>2 \<le> c1u * c2u * s2u\<^sup>2"
    by (rule mult_mono) (use a b assms in auto)
  with a show "s1\<^sup>2 + c1 * c2 * s2\<^sup>2 \<le> s1u\<^sup>2 + c1u * c2u * s2u\<^sup>2" by linarith
qed

lemma ny_la_a:
  "0.09239 \<le> hav_a 40.7128 (- 74.0060) 34.0522 (- 118.2437) \<and>
   hav_a 40.7128 (- 74.0060) 34.0522 (- 118.2437) \<le> 0.09243"
proof -
  define x1 :: real where "x1 = 6.6606 / 360 * pi"
  define x2 :: real where "x2 = 44.2377 / 360 * pi"
  define p1 :: real where "p1 = 40.7128 / 180 * pi"
  define p2 :: real where "p2 = 34.0522 / 180 * pi"
  have a: "hav_a 40.7128 (- 74.0060) 34.0522 (- 118.2437) =
      (sin x1)\<^sup>2 + cos p1 * cos p2 * (sin x2)\<^sup>2"
  proof -
    have "(34.0522 - 40.7128) * pi / 180 / 2 = - x1"
      "(- 118.2437 - (- 74.0060)) * pi / 180 / 2 = - x2"
      "40.7128 * pi / 180 = p1" "34.0522 * pi / 180 = p2"
      by (simp_all add: x1_def x2_def p1_def p2_def)
    then show ?thesis by (simp only: hav_a_def sin_minus power2_minus)
  qed
  have x1: "0.05812 \<le> x1 \<and> x1 \<le> 0.05813"
    unfolding x1_def by (rule scaled_pi) simp_all
  have x2: "0.38603 \<le> x2 \<and> x2 \<le> 0.38606"
    unfolding x2_def by (rule scaled_pi) simp_all
  have p1: "0.71054 \<le> p1 \<and> p1 \<le> 0.71059"
    unfolding p1_def by (rule scaled_pi) simp_all
  have p2: "0.5943 \<le> p2 \<and> p2 \<le> 0.59434"
    unfolding p2_def by (rule scaled_pi) simp_all
  have s1: "0.058087 \<le> sin x1 \<and> sin x1 \<le> 0.058098"
    by (rule sin_between [of "0.05812" x1 "0.05813"]) (use x1 in \<open>simp_all add: power_divide\<close>)
  have s2: "0.376513 \<le> sin x2 \<and> sin x2 \<le> 0.376542"
    by (rule sin_between [of "0.38603" x2 "0.38606"]) (use x2 in \<open>simp_all add: power_divide\<close>)
  have c1: "0.757973 \<le> cos p1 \<and> cos p1 \<le> 0.75801"
    by (rule cos_between [of "0.71054" p1 "0.71059"]) (use p1 in \<open>simp_all add: power_divide\<close>)
  have c2: "0.828517 \<le> cos p2 \<and> cos p2 \<le> 0.828541"
    by (rule cos_between [of "0.5943" p2 "0.59434"]) (use p2 in \<open>simp_all add: power_divide\<close>)
  have lo: "(0.058087 :: real)\<^sup>2 + 0.757973 * 0.828517 * 0.376513\<^sup>2
      \<le> (sin x1)\<^sup>2 + cos p1 * cos p2 * (sin x2)\<^sup>2"
    by (rule hav_combine(1) [where ?s1u = "0.058098" and ?s2u = "0.376542" and ?c1u = "0.75801" and ?c2u = "0.828541"])
      (use s1 s2 c1 c2 in simp_all)
  have hi: "(sin x1)\<^sup>2 + cos p1 * cos p2 * (sin x2)\<^sup>2
      \<le> (0.058098 :: real)\<^sup>2 + 0.75801 * 0.828541 * 0.376542\<^sup>2"
    by (rule hav_combine(2) [where ?s1l = "0.058087" and ?s2l = "0.376513" and ?c1l = "0.757973" and ?c2l = "0.828517"])
      (use s1 s2 c1 c2 in simp_all)
  have "(0.09239 :: real) \<le> 0.058087\<^sup>2 + 0.757973 * 0.828517 * 0.376513\<^sup>2"
    by (simp add: power2_eq_square)
  moreover have "(0.058098 :: real)\<^sup>2 + 0.75801 * 0.828541 * 0.376542\<^sup>2 \<le> 0.09243"
    by (simp add: power2_eq_square)
  ultimately show ?thesis unfolding a using lo hi by linarith
qed

lemma arcsin_sqrt_between:
  fixes a :: real
  assumes "0 \<le> L" "L \<le> U" "U \<le> 1" "0 \<le> a" "a \<le> 1"
    and "(L - L ^ 3 / 6 + L ^ 5 / 120 + L ^ 7 / 5040)\<^sup>2 \<le> a"
    and "a \<le> (U - U ^ 3 / 6 + U ^ 5 / 120 - U ^ 7 / 5040)\<^sup>2"
    and "0 \<le> U - U ^ 3 / 6 + U ^ 5 / 120 - U ^ 7 / 5040"
  shows "L \<le> arcsin (sqrt a) \<and> arcsin (sqrt a) \<le> U"
proof -
  have half: "(1::real) \<le> pi / 2" using pi_ge_two by simp
  have sq: "0 \<le> sqrt a" "sqrt a \<le> 1" using assms by auto
  have sL0: "0 \<le> sin L"
    by (rule sin_ge_zero) (use assms half in linarith)+
  have sL: "sin L \<le> L - L ^ 3 / 6 + L ^ 5 / 120 + L ^ 7 / 5040"
    by (rule sin_taylor(2)) (use assms in linarith)
  have sU: "U - U ^ 3 / 6 + U ^ 5 / 120 - U ^ 7 / 5040 \<le> sin U"
    by (rule sin_taylor(1)) (use assms in linarith)
  have "(sin L)\<^sup>2 \<le> (L - L ^ 3 / 6 + L ^ 5 / 120 + L ^ 7 / 5040)\<^sup>2"
    by (rule power_mono [OF sL sL0])
  with assms(6) have "(sin L)\<^sup>2 \<le> a" by linarith
  then have "sqrt ((sin L)\<^sup>2) \<le> sqrt a" by (rule real_sqrt_le_mono)
  moreover have "sqrt ((sin L)\<^sup>2) = sin L" using sL0 by simp
  ultimately have l: "sin L \<le> sqrt a" by simp
  have "(U - U ^ 3 / 6 + U ^ 5 / 120 - U ^ 7 / 5040)\<^sup>2 \<le> (sin U)\<^sup>2"
    by (rule power_mono [OF sU assms(8)])
  with assms(7) have "a \<le> (sin U)\<^sup>2" by linarith
  then have "sqrt a \<le> sqrt ((sin U)\<^sup>2)" by (rule real_sqrt_le_mono)
  moreover have "0 \<le> sin U" using assms(8) sU by linarith
  then have "sqrt ((sin U)\<^sup>2) = sin U" by simp
  ultimately have u: "sqrt a \<le> sin U" by simp
  have "arcsin (sin L) \<le> arcsin (sqrt a)"
    by (rule arcsin_le_arcsin) (use l sq sL0 in linarith)+
  moreover have "arcsin (sin L) = L"
    by (rule arcsin_sin) (use assms half in linarith)+
  moreover have "arcsin (sqrt a) \<le> arcsin (sin U)"
    by (rule arcsin_le_arcsin) (use u sq in linarith, rule u, rule sin_le_one)
  moreover have "arcsin (sin U) = U"
    by (rule arcsin_sin) (use assms half in linarith)+
  ultimately show ?thesis by simp
qed

text \<open>
  C8. For New York (40.7128, -74.0060) and Los Angeles (34.0522, -118.2437), with the
  radius 3958.8 of the function, the result is a number within 5 of 2445 miles.
\<close>

theorem haversine_new_york_los_angeles:
  "\<exists>d. haversine (Fin 40.7128) (Fin (- 74.0060)) (Fin 34.0522) (Fin (- 118.2437)) = Fin d \<and>
       \<bar>d - 2445\<bar> \<le> 5"
proof -
  let ?a = "hav_a 40.7128 (- 74.0060) 34.0522 (- 118.2437)"
  have h: "\<bar>40.7128 :: real\<bar> \<le> 10 ^ 307" "\<bar>- 74.0060 :: real\<bar> \<le> 10 ^ 307"
    "\<bar>34.0522 :: real\<bar> \<le> 10 ^ 307" "\<bar>- 118.2437 :: real\<bar> \<le> 10 ^ 307"
    by simp_all
  have d: "haversine (Fin 40.7128) (Fin (- 74.0060)) (Fin 34.0522) (Fin (- 118.2437)) =
      Fin (3958.8 * (2 * arcsin (sqrt ?a)))"
    by (rule haversine_Fin [OF h])
  have r: "0.3082 \<le> arcsin (sqrt ?a) \<and> arcsin (sqrt ?a) \<le> 0.3094"
    by (rule arcsin_sqrt_between) (use ny_la_a in \<open>simp_all add: power_divide\<close>)
  have "3958.8 * (2 * 0.3082) \<le> 3958.8 * (2 * arcsin (sqrt ?a))"
    using r by (intro mult_left_mono) simp_all
  moreover have "3958.8 * (2 * arcsin (sqrt ?a)) \<le> 3958.8 * (2 * 0.3094)"
    using r by (intro mult_left_mono) simp_all
  moreover have "(2440 :: real) \<le> 3958.8 * (2 * 0.3082)" "3958.8 * (2 * 0.3094) \<le> (2450 :: real)"
    by simp_all
  ultimately have "\<bar>3958.8 * (2 * arcsin (sqrt ?a)) - 2445\<bar> \<le> 5"
    unfolding abs_le_iff by linarith
  with d show ?thesis by blast
qed

end
